theory Spec2Isabelle
  imports Main "HOL-Library.Word"
begin

section \<open>JavaScript strings and the built-ins the components call\<close>

text \<open>
  A JavaScript string is a sequence of UTF-16 code units. The two markers of the log
  classification are single code units: U+2713 (check mark) and U+2717 (ballot x).
\<close>

type_synonym jsstring = "16 word list"

definition js :: "string \<Rightarrow> jsstring" where
  "js s = map of_char s"

definition check_mark :: jsstring where
  "check_mark = [0x2713]"

definition ballot_x :: jsstring where
  "ballot_x = [0x2717]"

fun startsWith :: "'a list \<Rightarrow> 'a list \<Rightarrow> bool" where
  "startsWith s [] = True"
| "startsWith [] (n # ns) = False"
| "startsWith (c # cs) (n # ns) = (c = n \<and> startsWith cs ns)"

text \<open>\<^verbatim>\<open>String.prototype.includes\<close>: the needle occurs at some position.\<close>

fun includes_js :: "'a list \<Rightarrow> 'a list \<Rightarrow> bool" where
  "includes_js [] n = (n = [])"
| "includes_js (c # cs) n = (startsWith (c # cs) n \<or> includes_js cs n)"

text \<open>
  \<^verbatim>\<open>String.prototype.toLowerCase\<close>, code unit by code unit: Basic Latin and Latin-1
  capitals move to their small letters, U+0130 becomes \<open>i\<close> followed by U+0307 and the
  Kelvin sign U+212A becomes \<open>k\<close> (the only code points outside Basic Latin whose
  lower-case form holds a Basic Latin letter); every other code unit is kept.
\<close>

definition toLowerCaseUnit :: "16 word \<Rightarrow> jsstring" where
  "toLowerCaseUnit u =
     (if 0x41 \<le> u \<and> u \<le> 0x5A then [u + 0x20]
      else if 0xC0 \<le> u \<and> u \<le> 0xDE \<and> u \<noteq> 0xD7 then [u + 0x20]
      else if u = 0x130 then [0x69, 0x307]
      else if u = 0x212A then [0x6B]
      else [u])"

definition toLowerCase :: "jsstring \<Rightarrow> jsstring" where
  "toLowerCase s = concat (map toLowerCaseUnit s)"

text \<open>\<^verbatim>\<open>s.split(d)\<close> for a separator of one code unit; the result is never empty.\<close>

fun split_js :: "'a list \<Rightarrow> 'a \<Rightarrow> 'a list list" where
  "split_js [] d = [[]]"
| "split_js (c # cs) d =
     (if c = d then [] # split_js cs d
      else (case split_js cs d of [] \<Rightarrow> [[c]] | p # ps \<Rightarrow> (c # p) # ps))"

text \<open>\<^verbatim>\<open>xs.join(sep)\<close>.\<close>

fun join_js :: "'a list list \<Rightarrow> 'a list \<Rightarrow> 'a list" where
  "join_js [] sep = []"
| "join_js [x] sep = x"
| "join_js (x # y # ys) sep = x @ sep @ join_js (y # ys) sep"

text \<open>A number inside a template literal: its decimal digits, with a sign when negative.\<close>

fun digits :: "nat \<Rightarrow> jsstring" where
  "digits n = (if n < 10 then [of_nat (48 + n)] else digits (n div 10) @ [of_nat (48 + n mod 10)])"

definition show_int :: "int \<Rightarrow> jsstring" where
  "show_int i = (if i < 0 then 0x2D # digits (nat (- i)) else digits (nat i))"

text \<open>\<^verbatim>\<open>v || d\<close> on an optional string: absent and empty strings are falsy.\<close>

definition or_else :: "jsstring option \<Rightarrow> jsstring \<Rightarrow> jsstring" where
  "or_else v d = (case v of None \<Rightarrow> d | Some x \<Rightarrow> if x = [] then d else x)"

text \<open>The spec's wording of a file extension: the substring after the last dot.\<close>

definition dot :: "16 word" where
  "dot = 0x2E"

definition after_last_dot :: "jsstring \<Rightarrow> jsstring" where
  "after_last_dot s = rev (takeWhile (\<lambda>c. c \<noteq> dot) (rev s))"

section \<open>FileDropzone.jsx\<close>

record jsfile =
  name :: jsstring
  mime :: jsstring
  bytes :: nat

text \<open>
  \<^verbatim>\<open>validateFile\<close>: \<^verbatim>\<open>'.' + file.name.split('.').pop().toLowerCase()\<close> looked up in
  \<^verbatim>\<open>acceptedFormats\<close>. \<^verbatim>\<open>pop\<close> returns the last piece, which exists since
  \<^verbatim>\<open>split\<close> never returns an empty array.
\<close>

definition extension :: "jsfile \<Rightarrow> jsstring" where
  "extension file = dot # toLowerCase (last (split_js (name file) dot))"

definition validateFile :: "jsstring list \<Rightarrow> jsfile \<Rightarrow> bool" where
  "validateFile acceptedFormats file = (extension file \<in> set acceptedFormats)"

text \<open>
  What a handler of the dropzone does to the outside: the \<^verbatim>\<open>onFileSelect\<close> callback,
  the blocking \<^verbatim>\<open>alert\<close>, clearing the input element, and its own drag flag.
\<close>

datatype dz_effect =
    OnFileSelect jsfile
  | Alert jsstring
  | ClearInputValue
  | SetIsDragActive bool

definition invalid_format_message :: "jsstring list \<Rightarrow> jsstring" where
  "invalid_format_message acceptedFormats =
     js ''Invalid file format. Please select: '' @ join_js acceptedFormats (js '', '')"

text \<open>\<^verbatim>\<open>handleFileInput\<close>; the argument is \<^verbatim>\<open>event.target.files[0]\<close>.\<close>

definition handleFileInput :: "jsstring list \<Rightarrow> jsfile option \<Rightarrow> dz_effect list" where
  "handleFileInput acceptedFormats first_file =
     (case first_file of
        None \<Rightarrow> []
      | Some file \<Rightarrow>
          if validateFile acceptedFormats file then [OnFileSelect file]
          else [Alert (invalid_format_message acceptedFormats), ClearInputValue])"

text \<open>\<^verbatim>\<open>handleDrop\<close>; the last argument is \<^verbatim>\<open>Array.from(e.dataTransfer.files)\<close>.\<close>

definition handleDrop :: "jsstring list \<Rightarrow> bool \<Rightarrow> jsfile list \<Rightarrow> dz_effect list" where
  "handleDrop acceptedFormats disabled files =
     SetIsDragActive False #
     (if disabled then []
      else (case files of
              [] \<Rightarrow> []
            | file # _ \<Rightarrow>
                if validateFile acceptedFormats file then [OnFileSelect file]
                else [Alert (invalid_format_message acceptedFormats)]))"

text \<open>
  The slot a dropzone feeds is a state variable of \<^verbatim>\<open>App\<close>
  (\<^verbatim>\<open>onFileSelect={setRecipientsFile}\<close>): only \<^verbatim>\<open>onFileSelect\<close> writes it.
\<close>

fun slot_after :: "jsfile option \<Rightarrow> dz_effect list \<Rightarrow> jsfile option" where
  "slot_after cur [] = cur"
| "slot_after cur (OnFileSelect f # es) = slot_after (Some f) es"
| "slot_after cur (_ # es) = slot_after cur es"

fun selects :: "dz_effect \<Rightarrow> bool" where
  "selects (OnFileSelect f) = True"
| "selects _ = False"

section \<open>App.jsx\<close>

datatype log_type = Info | Success | Error

record log_entry =
  type :: log_type
  message :: jsstring

record job_progress =
  current :: int
  total :: int

datatype toast_type = NoType | ToastSuccess | ToastError

record toast_state =
  toast_message :: jsstring
  toast_type :: toast_type

record app =
  recipientsFile :: "jsfile option"
  attachmentFile :: "jsfile option"
  isSending :: bool
  progress :: job_progress
  logs :: "log_entry list"
  toast :: toast_state

definition initial_app :: app where
  "initial_app =
     \<lparr>recipientsFile = None, attachmentFile = None, isSending = False,
      progress = \<lparr>current = 0, total = 0\<rparr>, logs = [],
      toast = \<lparr>toast_message = [], toast_type = NoType\<rparr>\<rparr>"

text \<open>The two allow-lists (lines 26 and 27).\<close>

definition excelFormats :: "jsstring list" where
  "excelFormats = [js ''.xlsx'', js ''.xls'']"

definition attachmentFormats :: "jsstring list" where
  "attachmentFormats =
     [js ''.pdf'', js ''.jpg'', js ''.jpeg'', js ''.png'', js ''.gif'', js ''.doc'',
      js ''.docx'', js ''.txt'']"

subsection \<open>The network as the handlers see it\<close>

text \<open>
  A \<^verbatim>\<open>fetch\<close> either rejects (with an error message) or answers with a status, a
  status text and a body; \<^verbatim>\<open>response.json()\<close> gives the decoded body or throws
  (\<open>Inl\<close> the message of what it throws). \<^verbatim>\<open>response.ok\<close> is a status from 200 to 299.
\<close>

datatype 'a fetched =
    Rejected jsstring
  | Responded nat jsstring "jsstring + 'a"

definition ok :: "nat \<Rightarrow> bool" where
  "ok status = (200 \<le> status \<and> status \<le> 299)"

record progress_data =
  data_current :: int
  data_total :: int
  data_logs :: "jsstring list option"
  data_is_active :: bool

record status_data =
  successCount :: int
  failureCount :: int

record send_data =
  data_message :: "jsstring option"
  data_error :: "jsstring option"

datatype request =
    GetProgress
  | GetStatus
  | PostSend "(jsstring \<times> jsfile) list"

datatype effect =
    Fetch request
  | ConsoleWarn
  | ConsoleError

subsection \<open>The polling effect\<close>

text \<open>The classification of one server log line (lines 57 to 66).\<close>

definition categorize :: "jsstring \<Rightarrow> log_entry" where
  "categorize logMessage =
     (if includes_js logMessage check_mark \<or> includes_js (toLowerCase logMessage) (js ''success'')
      then \<lparr>type = Success, message = logMessage\<rparr>
      else if includes_js logMessage ballot_x \<or> includes_js (toLowerCase logMessage) (js ''error'')
              \<or> includes_js (toLowerCase logMessage) (js ''failed'')
      then \<lparr>type = Error, message = logMessage\<rparr>
      else \<lparr>type = Info, message = logMessage\<rparr>)"

text \<open>
  The log merge (lines 56 to 70). The test \<^verbatim>\<open>data.logs.length > logs.length\<close> and the
  slice \<^verbatim>\<open>data.logs.slice(logs.length)\<close> read \<^verbatim>\<open>logs\<close> of the render that set the
  interval up (\<open>seen\<close>); \<^verbatim>\<open>setLogs(prev => [...prev, ...newLogs])\<close> appends to the list
  the session holds when the update runs (\<open>prev\<close>).
\<close>

definition mergeLogs ::
  "log_entry list \<Rightarrow> log_entry list \<Rightarrow> jsstring list option \<Rightarrow> log_entry list" where
  "mergeLogs seen prev server =
     (case server of
        None \<Rightarrow> prev
      | Some lines \<Rightarrow>
          if length lines > length seen
          then prev @ map categorize (drop (length seen) lines)
          else prev)"

definition showToast :: "jsstring \<Rightarrow> toast_type \<Rightarrow> app \<Rightarrow> app" where
  "showToast m t s = s\<lparr>toast := \<lparr>toast_message = m, toast_type = t\<rparr>\<rparr>"

text \<open>The completion toast (lines 82 to 89).\<close>

definition completionToast :: "status_data \<Rightarrow> app \<Rightarrow> app" where
  "completionToast statusData s =
     (if failureCount statusData = 0
      then showToast (js ''All '' @ show_int (successCount statusData)
                        @ js '' messages sent successfully!'') ToastSuccess s
      else showToast (js ''Completed: '' @ show_int (successCount statusData) @ js '' sent, ''
                        @ show_int (failureCount statusData) @ js '' failed'')
             (if successCount statusData > 0 then ToastSuccess else ToastError) s)"

text \<open>
  One run of the interval callback (lines 40 to 98), given what the two requests come
  back with. The second request is only issued on completion. \<open>seen\<close> is \<^verbatim>\<open>logs\<close> as the
  callback's closure holds it; \<open>s\<close> is the session when the response is handled.
\<close>

definition pollCallback ::
  "log_entry list \<Rightarrow> app \<Rightarrow> progress_data fetched \<Rightarrow> status_data fetched
   \<Rightarrow> effect list \<times> app" where
  "pollCallback seen s response statusResponse =
     (case response of
        Rejected e \<Rightarrow> ([Fetch GetProgress, ConsoleError], s)
      | Responded status statusText body \<Rightarrow>
          if \<not> ok status then ([Fetch GetProgress, ConsoleWarn], s)
          else (case body of
                  Inl e \<Rightarrow> ([Fetch GetProgress, ConsoleError], s)
                | Inr data \<Rightarrow>
                    let s1 = s\<lparr>progress := \<lparr>current = data_current data, total = data_total data\<rparr>,
                               logs := mergeLogs seen (logs s) (data_logs data)\<rparr>
                    in if \<not> data_is_active data \<and> data_total data > 0
                       then let s2 = s1\<lparr>isSending := False\<rparr>
                            in (case statusResponse of
                                  Rejected e \<Rightarrow>
                                    ([Fetch GetProgress, Fetch GetStatus, ConsoleError], s2)
                                | Responded st txt (Inl e) \<Rightarrow>
                                    ([Fetch GetProgress, Fetch GetStatus, ConsoleError], s2)
                                | Responded st txt (Inr statusData) \<Rightarrow>
                                    ([Fetch GetProgress, Fetch GetStatus],
                                     completionToast statusData s2))
                       else ([Fetch GetProgress], s1)))"

text \<open>
  A poll cycle whose response is handled before anything else happens: the interval
  exists only while \<^verbatim>\<open>isSending\<close> holds (lines 39 and 101 to 105), and the closure's
  \<^verbatim>\<open>logs\<close> is the session's, the effect being set up again whenever \<^verbatim>\<open>logs.length\<close>
  changes (line 105).
\<close>

definition pollCycle ::
  "app \<Rightarrow> progress_data fetched \<times> status_data fetched \<Rightarrow> effect list \<times> app" where
  "pollCycle s r = (if isSending s then pollCallback (logs s) s (fst r) (snd r) else ([], s))"

fun pollAll :: "app \<Rightarrow> (progress_data fetched \<times> status_data fetched) list \<Rightarrow> app" where
  "pollAll s [] = s"
| "pollAll s (r # rs) = pollAll (snd (pollCycle s r)) rs"

fun pollTrace ::
  "app \<Rightarrow> (progress_data fetched \<times> status_data fetched) list \<Rightarrow> effect list" where
  "pollTrace s [] = []"
| "pollTrace s (r # rs) = fst (pollCycle s r) @ pollTrace (snd (pollCycle s r)) rs"

text \<open>
  Polls in flight together. The interval fires every two seconds whether or not the
  previous request has been answered (line 40 has no guard), so a callback can be waiting
  for its response while the session moves on. Each waiting callback keeps the \<^verbatim>\<open>logs\<close>
  of the render that set its interval up; responses are handled in the order the requests
  were issued, and a callback still runs after its interval has been cleared.
\<close>

datatype poll_event =
    IntervalFires
  | ResponseArrives "progress_data fetched \<times> status_data fetched"

fun pollRun :: "app \<Rightarrow> log_entry list list \<Rightarrow> poll_event list \<Rightarrow> app" where
  "pollRun s waiting [] = s"
| "pollRun s waiting (IntervalFires # es) =
     (if isSending s then pollRun s (waiting @ [logs s]) es else pollRun s waiting es)"
| "pollRun s [] (ResponseArrives r # es) = pollRun s [] es"
| "pollRun s (seen # waiting) (ResponseArrives r # es) =
     pollRun (snd (pollCallback seen s (fst r) (snd r))) waiting es"

text \<open>A poll whose request fails: the transport rejects, or the status is not a success.\<close>

fun failed_poll :: "'a fetched \<Rightarrow> bool" where
  "failed_poll (Rejected e) = True"
| "failed_poll (Responded status statusText body) = (\<not> ok status)"

text \<open>The lines of a poll response, none when the field is missing.\<close>

definition server_lines :: "progress_data \<Rightarrow> jsstring list" where
  "server_lines d = (case data_logs d of None \<Rightarrow> [] | Some lines \<Rightarrow> lines)"

text \<open>A response with status 200 carrying the given data.\<close>

definition success_of :: "'a \<Rightarrow> 'a fetched" where
  "success_of d = Responded 200 (js ''OK'') (Inr d)"

subsection \<open>The buttons\<close>

definition clearFiles :: "app \<Rightarrow> app" where
  "clearFiles s = s\<lparr>recipientsFile := None, attachmentFile := None\<rparr>"

definition clearLogs :: "app \<Rightarrow> app" where
  "clearLogs s = s\<lparr>logs := [], progress := \<lparr>current = 0, total = 0\<rparr>\<rparr>"

text \<open>The \<^verbatim>\<open>catch\<close> block of \<^verbatim>\<open>handleStartSending\<close> (lines 192 to 206).\<close>

definition sendFailed :: "jsstring \<Rightarrow> app \<Rightarrow> app" where
  "sendFailed errorMessage s =
     (showToast
        (js ''Failed to start sending process. Please check your connection and try again.'')
        ToastError
        (s\<lparr>logs := logs s @ [\<lparr>type = Error, message = js ''Error: '' @ errorMessage\<rparr>]\<rparr>))
     \<lparr>isSending := False\<rparr>"

definition formData :: "jsfile \<Rightarrow> jsfile option \<Rightarrow> (jsstring \<times> jsfile) list" where
  "formData rf af =
     (js ''recipientsFile'', rf) #
     (case af of None \<Rightarrow> [] | Some a \<Rightarrow> [(js ''attachmentFile'', a)])"

definition initial_entry :: "jsfile \<Rightarrow> log_entry" where
  "initial_entry rf =
     \<lparr>type = Info,
      message = js ''Initializing bulk send process with '' @ name rf @ js ''...''\<rparr>"

text \<open>
  \<^verbatim>\<open>handleStartSending\<close> (lines 141 to 207), given what the launch request comes back
  with if it is issued.
\<close>

definition handleStartSending :: "app \<Rightarrow> send_data fetched \<Rightarrow> effect list \<times> app" where
  "handleStartSending s response =
     (case recipientsFile s of
        None \<Rightarrow> ([], showToast (js ''Please select a recipients Excel file'') ToastError s)
      | Some rf \<Rightarrow>
          let s1 = s\<lparr>isSending := True, logs := [], progress := \<lparr>current = 0, total = 0\<rparr>\<rparr>;
              s2 = s1\<lparr>logs := [initial_entry rf]\<rparr>;
              request = Fetch (PostSend (formData rf (attachmentFile s)))
          in (case response of
                Rejected e \<Rightarrow> ([request, ConsoleError], sendFailed e s2)
              | Responded status statusText body \<Rightarrow>
                  if \<not> ok status
                  then (case body of
                          Inl e \<Rightarrow> ([request, ConsoleError], sendFailed e s2)
                        | Inr errorData \<Rightarrow>
                            ([request, ConsoleError],
                             sendFailed
                               (or_else (data_error errorData)
                                  (js ''Server error: '' @ show_int (int status) @ js '' ''
                                     @ statusText))
                               s2))
                  else (case body of
                          Inl e \<Rightarrow> ([request, ConsoleError], sendFailed e s2)
                        | Inr result \<Rightarrow>
                            ([request],
                             s2\<lparr>logs := logs s2 @
                                  [\<lparr>type = Info,
                                    message = or_else (data_message result)
                                      (js ''Bulk sending process started successfully'')\<rparr>]\<rparr>))))"

section \<open>Toast.jsx\<close>

text \<open>
  The component with the two props that drive it (\<^verbatim>\<open>message\<close>, which is
  \<^verbatim>\<open>toast.message\<close> of \<^verbatim>\<open>App\<close>, and \<^verbatim>\<open>duration\<close>), its two state variables, and the
  pending \<^verbatim>\<open>setTimeout\<close> callbacks with the time each is due, on a clock that counts
  milliseconds.
\<close>

datatype timer_action = AutoClose | ExitDone

record toast_view =
  message_prop :: jsstring
  duration_prop :: int
  isVisible :: bool
  isExiting :: bool
  clock :: nat
  timers :: "(nat \<times> timer_action) list"

text \<open>The component as first rendered by \<^verbatim>\<open>App\<close>, whose toast message starts empty.\<close>

definition mounted :: "int \<Rightarrow> toast_view" where
  "mounted d =
     \<lparr>message_prop = [], duration_prop = d, isVisible = False, isExiting = False,
      clock = 0, timers = []\<rparr>"

text \<open>
  A render with new props. The first effect (lines 30 to 35) runs when \<^verbatim>\<open>message\<close>
  changed; the second (lines 38 to 46) runs when \<^verbatim>\<open>message\<close> or \<^verbatim>\<open>duration\<close> changed:
  its previous clean-up clears the auto-close timer, then a new one is set when the
  message is not empty and the duration is positive.

  \<^verbatim>\<open>setTimeout\<close> keeps its delay as a signed 32-bit integer: the duration wraps around
  modulo \<open>2^32\<close> into that range, and a negative result counts as 0. A timer set with
  delay 0 fires at the next millisecond of the clock.
\<close>

definition timeout_delay :: "int \<Rightarrow> nat" where
  "timeout_delay d =
     (let w = (d + 2147483648) mod 4294967296 - 2147483648
      in if w < 0 then 0 else nat w)"

definition render :: "jsstring \<Rightarrow> int \<Rightarrow> toast_view \<Rightarrow> toast_view" where
  "render m d v =
     (let v1 = (if m \<noteq> message_prop v \<and> m \<noteq> []
                then v\<lparr>isVisible := True, isExiting := False\<rparr> else v);
          v2 = (if m \<noteq> message_prop v \<or> d \<noteq> duration_prop v
                then v1\<lparr>timers :=
                           filter (\<lambda>p. snd p \<noteq> AutoClose) (timers v1) @
                           (if m \<noteq> [] \<and> d > 0 then [(clock v + timeout_delay d, AutoClose)]
                            else [])\<rparr>
                else v1)
      in v2\<lparr>message_prop := m, duration_prop := d\<rparr>)"

text \<open>\<^verbatim>\<open>handleClose\<close> (lines 54 to 62) up to its \<^verbatim>\<open>setTimeout\<close>, whose delay is the
  constant 300.\<close>

definition handleClose :: "toast_view \<Rightarrow> toast_view" where
  "handleClose v = v\<lparr>isExiting := True, timers := timers v @ [(clock v + 300, ExitDone)]\<rparr>"

text \<open>
  A timer firing. The callback inside \<^verbatim>\<open>handleClose\<close> ends with \<^verbatim>\<open>onClose()\<close>, which in
  \<^verbatim>\<open>App\<close> is \<^verbatim>\<open>() => setToast({ message: '', type: '' })\<close>: a render with an empty message.
\<close>

fun fire :: "timer_action \<Rightarrow> toast_view \<Rightarrow> toast_view" where
  "fire AutoClose v = handleClose v"
| "fire ExitDone v = render [] (duration_prop v) (v\<lparr>isVisible := False, isExiting := False\<rparr>)"

text \<open>
  The timers due now, one at a time in the order they were set. A callback only sets
  timers that are due later, so as many rounds as there are pending timers suffice.
\<close>

fun fire_due :: "nat \<Rightarrow> toast_view \<Rightarrow> toast_view" where
  "fire_due 0 v = v"
| "fire_due (Suc n) v =
     (case find (\<lambda>p. fst p \<le> clock v) (timers v) of
        None \<Rightarrow> v
      | Some p \<Rightarrow> fire_due n (fire (snd p) (v\<lparr>timers := remove1 p (timers v)\<rparr>)))"

definition tick :: "toast_view \<Rightarrow> toast_view" where
  "tick v = fire_due (length (timers v)) (v\<lparr>clock := clock v + 1\<rparr>)"

fun elapse :: "nat \<Rightarrow> toast_view \<Rightarrow> toast_view" where
  "elapse 0 v = v"
| "elapse (Suc n) v = elapse n (tick v)"

text \<open>The component returns \<^verbatim>\<open>null\<close> exactly when the message is empty (line 49).\<close>

definition rendered :: "toast_view \<Rightarrow> bool" where
  "rendered v = (message_prop v \<noteq> [])"

section \<open>Sample sessions\<close>

definition contacts_xlsx :: jsfile where
  "contacts_xlsx =
     \<lparr>name = js ''contacts.xlsx'', mime = js ''application/vnd.ms-excel'', bytes = 2048\<rparr>"

definition notes_csv :: jsfile where
  "notes_csv = \<lparr>name = js ''notes.CSV'', mime = js ''text/csv'', bytes = 120\<rparr>"

text \<open>A session with the recipients file chosen, and the same session after its launch
  was accepted.\<close>

definition ready :: app where
  "ready = initial_app\<lparr>recipientsFile := Some contacts_xlsx\<rparr>"

definition accepted :: "send_data fetched" where
  "accepted =
     success_of \<lparr>data_message = Some (js ''Bulk sending started''), data_error = None\<rparr>"

definition launched :: app where
  "launched = snd (handleStartSending ready accepted)"

text \<open>A session that is sending and holds no log entry.\<close>

definition sending :: app where
  "sending = initial_app\<lparr>isSending := True\<rparr>"

text \<open>The two poll responses of the scenario, a response with one line, and a summary.\<close>

definition first_response :: "progress_data fetched" where
  "first_response = success_of
     \<lparr>data_current = 3, data_total = 10,
      data_logs = Some [js ''a'', js ''b'', js ''c''], data_is_active = True\<rparr>"

definition second_response :: "progress_data fetched" where
  "second_response = success_of
     \<lparr>data_current = 10, data_total = 10,
      data_logs = Some [js ''a'', js ''b'', js ''c'', js ''d '' @ check_mark, js ''error: e''],
      data_is_active = False\<rparr>"

definition one_line_response :: "progress_data fetched" where
  "one_line_response = success_of
     \<lparr>data_current = 0, data_total = 10, data_logs = Some [js ''a''], data_is_active = True\<rparr>"

definition summary :: "status_data fetched" where
  "summary = success_of \<lparr>successCount = 9, failureCount = 1\<rparr>"

definition gateway_down :: "progress_data fetched" where
  "gateway_down = Responded 502 (js ''Bad Gateway'') (Inl (js ''Unexpected token''))"

definition offline :: "progress_data fetched" where
  "offline = Rejected (js ''Failed to fetch'')"

section \<open>Strings: what the built-ins compute\<close>

lemma startsWith_iff: "startsWith s n \<longleftrightarrow> (\<exists>q. s = n @ q)"
  by (induction s n rule: startsWith.induct) auto

lemma includes_js_iff: "includes_js s n \<longleftrightarrow> (\<exists>p q. s = p @ n @ q)"
proof (induction s)
  case Nil
  then show ?case by auto
next
  case (Cons c cs)
  show ?case
  proof
    assume "includes_js (c # cs) n"
    then consider "startsWith (c # cs) n" | "includes_js cs n" by auto
    then show "\<exists>p q. c # cs = p @ n @ q"
    proof cases
      case 1
      then obtain q where "c # cs = n @ q" unfolding startsWith_iff by blast
      then have "c # cs = [] @ n @ q" by simp
      then show ?thesis by blast
    next
      case 2
      then obtain p q where "cs = p @ n @ q" using Cons.IH by blast
      then have "c # cs = (c # p) @ n @ q" by simp
      then show ?thesis by blast
    qed
  next
    assume "\<exists>p q. c # cs = p @ n @ q"
    then obtain p q where pq: "c # cs = p @ n @ q" by blast
    show "includes_js (c # cs) n"
    proof (cases p)
      case Nil
      with pq have "startsWith (c # cs) n" unfolding startsWith_iff by auto
      then show ?thesis by simp
    next
      case (Cons a p')
      with pq have "cs = p' @ n @ q" by simp
      then have "includes_js cs n" using Cons.IH by blast
      then show ?thesis by simp
    qed
  qed
qed

lemma split_js_nonempty: "split_js s d \<noteq> []"
  by (induction s) (auto split: list.splits)

lemma split_js_no_separator: "d \<notin> set s \<Longrightarrow> split_js s d = [s]"
  by (induction s) auto

lemma split_js_tl: "d \<in> set s \<Longrightarrow> tl (split_js s d) \<noteq> []"
  using split_js_nonempty [of _ d] by (induction s) (auto split: list.splits)

lemma takeWhile_absent:
  "d \<notin> set xs \<Longrightarrow>
   takeWhile (\<lambda>c. c \<noteq> d) (xs @ ys) = xs @ takeWhile (\<lambda>c. c \<noteq> d) ys"
  by (induction xs) auto

text \<open>The piece \<^verbatim>\<open>pop\<close> returns is what follows the last separator, and the whole string
  when there is none.\<close>

lemma last_split_js: "last (split_js s d) = rev (takeWhile (\<lambda>c. c \<noteq> d) (rev s))"
proof (induction s)
  case Nil
  then show ?case by simp
next
  case (Cons c cs)
  show ?case
  proof (cases "d \<in> set cs")
    case True
    then have tw: "takeWhile (\<lambda>c. c \<noteq> d) (rev cs @ [c]) = takeWhile (\<lambda>c. c \<noteq> d) (rev cs)"
      by simp
    have "last (split_js (c # cs) d) = last (split_js cs d)"
      using split_js_nonempty [of cs d] split_js_tl [OF True] by (auto split: list.splits)
    with tw Cons.IH show ?thesis by simp
  next
    case False
    then have "split_js cs d = [cs]" by (rule split_js_no_separator)
    moreover from False have "takeWhile (\<lambda>c. c \<noteq> d) (rev cs @ [c]) =
        rev cs @ takeWhile (\<lambda>c. c \<noteq> d) [c]"
      by (simp add: takeWhile_absent)
    ultimately show ?thesis by simp
  qed
qed

lemma extension_after_last_dot: "extension f = dot # toLowerCase (after_last_dot (name f))"
  by (simp add: extension_def after_last_dot_def last_split_js)

lemma after_last_dot_append: "dot \<notin> set e \<Longrightarrow> after_last_dot (p @ dot # e) = e"
  using takeWhile_absent [of dot "rev e" "dot # rev p"] by (simp add: after_last_dot_def)

section \<open>The log merge and the poll cycle\<close>

lemma mergeLogs_length:
  "length (mergeLogs local local (Some lines)) = max (length local) (length lines)"
  by (simp add: mergeLogs_def)

lemma mergeLogs_appends:
  "mergeLogs seen prev (Some lines) = prev @ map categorize (drop (length seen) lines)"
  by (simp add: mergeLogs_def)

lemma mergeLogs_no_growth:
  "length lines \<le> length seen \<Longrightarrow> mergeLogs seen prev (Some lines) = prev"
  by (simp add: mergeLogs_def)

lemma mergeLogs_twice:
  "mergeLogs (mergeLogs local local server) (mergeLogs local local server) server =
   mergeLogs local local server"
  by (cases server) (simp_all add: mergeLogs_def)

lemma completionToast_frame:
  "logs (completionToast sd s) = logs s"
  "isSending (completionToast sd s) = isSending s"
  "progress (completionToast sd s) = progress s"
  by (simp_all add: completionToast_def showToast_def)

lemma pollCallback_logs:
  "logs (snd (pollCallback seen s r st)) =
     (case r of Responded status txt (Inr d) \<Rightarrow>
        if ok status then mergeLogs seen (logs s) (data_logs d) else logs s
      | _ \<Rightarrow> logs s)"
  by (simp add: pollCallback_def Let_def completionToast_frame
      split: fetched.splits sum.splits)

lemma pollCallback_isSending:
  "isSending (snd (pollCallback seen s r st)) =
     (case r of Responded status txt (Inr d) \<Rightarrow>
        if ok status \<and> \<not> data_is_active d \<and> data_total d > 0 then False else isSending s
      | _ \<Rightarrow> isSending s)"
  by (auto simp add: pollCallback_def Let_def completionToast_frame
      split: fetched.splits sum.splits)

lemma pollCycle_twice_logs:
  "logs (snd (pollCycle (snd (pollCycle s r)) r)) = logs (snd (pollCycle s r))"
  by (simp add: pollCycle_def pollCallback_logs pollCallback_isSending mergeLogs_twice
      split: fetched.splits sum.splits)

lemma pollCycle_failed:
  "failed_poll (fst r) \<Longrightarrow> isSending s \<Longrightarrow>
   snd (pollCycle s r) = s \<and>
   fst (pollCycle s r) =
     [Fetch GetProgress, case fst r of Rejected e \<Rightarrow> ConsoleError | _ \<Rightarrow> ConsoleWarn]"
  by (cases "fst r") (simp_all add: pollCycle_def pollCallback_def)

text \<open>
  What the merge does to the number of entries over any run of successful responses that
  do not end the run: the count is the largest of the count held at the start and the
  counts the server reported, and what was held at the start stays in front.
\<close>

lemma pollAll_log_count:
  "isSending s \<Longrightarrow> list_all (\<lambda>d. data_is_active d \<or> data_total d \<le> 0) ds \<Longrightarrow>
   length (logs (pollAll s (map (\<lambda>d. (success_of d, st)) ds))) =
     fold (\<lambda>d n. max n (length (server_lines d))) ds (length (logs s))"
proof (induction ds arbitrary: s)
  case Nil
  then show ?case by simp
next
  case (Cons d ds)
  let ?s' = "snd (pollCycle s (success_of d, st))"
  from Cons.prems have run: "data_is_active d \<or> data_total d \<le> 0"
    and rest: "list_all (\<lambda>d. data_is_active d \<or> data_total d \<le> 0) ds"
    by simp_all
  from Cons.prems(1) run have sending': "isSending ?s'"
    by (auto simp add: pollCycle_def pollCallback_isSending success_of_def)
  from Cons.prems(1) have "length (logs ?s') = max (length (logs s)) (length (server_lines d))"
    by (simp add: pollCycle_def pollCallback_logs success_of_def ok_def server_lines_def
        mergeLogs_def split: option.splits)
  with Cons.IH [OF sending' rest] show ?case by simp
qed

lemma pollCycle_keeps_prefix: "\<exists>new. logs (snd (pollCycle s r)) = logs s @ new"
  by (cases r)
     (auto simp add: pollCycle_def pollCallback_logs mergeLogs_def
        split: fetched.splits sum.splits option.splits)

text \<open>Polls that are each answered before the interval fires again are the cycles of
  \<open>pollAll\<close>.\<close>

lemma pollRun_in_turn:
  "pollRun s [] (concat (map (\<lambda>r. [IntervalFires, ResponseArrives r]) rs)) = pollAll s rs"
  by (induction rs arbitrary: s) (simp_all add: pollCycle_def)

section \<open>The toast's timers\<close>



















text \<open>
  Outside those conditions the timing differs. A toast shown 150 ms after another one of
  100 ms, while that one is closing, is cleared by the earlier toast's pending close
  250 ms after it was shown; a toast of duration 0 shown at that moment is cleared the
  same way; the same message shown again while it is closing does not stop the close;
  and a duration of \<open>2^31\<close> ms, which \<^verbatim>\<open>setTimeout\<close> takes for 0, closes at once.
\<close>

lemma toast_shown_while_closing:
  "rendered (elapse 150 (render (js ''A'') 100 (mounted 5000)))
   \<and> rendered (elapse 249 (render (js ''B'') 100 (elapse 150 (render (js ''A'') 100 (mounted 5000)))))
   \<and> \<not> rendered (elapse 250 (render (js ''B'') 100 (elapse 150 (render (js ''A'') 100 (mounted 5000)))))"
  by code_simp

lemma toast_persistent_shown_while_closing:
  "\<not> rendered (elapse 250 (render (js ''B'') 0 (elapse 150 (render (js ''A'') 100 (mounted 5000)))))"
  by code_simp

lemma toast_same_message_while_closing:
  "\<not> rendered (elapse 250 (render (js ''A'') 100 (elapse 150 (render (js ''A'') 100 (mounted 5000)))))"
  by code_simp

lemma toast_duration_beyond_32_bits:
  "\<not> rendered (elapse 301 (render (js ''Saved'') 2147483648 (mounted 5000)))"
  by code_simp

section \<open>The claims\<close>

subsection \<open>C1: every server line is recorded once\<close>

text \<open>
  C1. For every sequence of successful poll responses processed while sending, the log
  history ends as long as the longest \<^verbatim>\<open>logs\<close> array the server reported, with no server
  line duplicated and none dropped, in the order of first arrival.

  The merge measures the server's array against \<^verbatim>\<open>logs.length\<close>, and \<^verbatim>\<open>logs\<close> already
  holds the two entries \<^verbatim>\<open>handleStartSending\<close> wrote. In the session below, launched and
  accepted, a response with one line adds nothing (the history keeps two entries where
  the server reported one), and the two responses of the scenario leave the history
  without the server's lines \<open>a\<close> and \<open>b\<close>. The general count is \<open>pollAll_log_count\<close>.
\<close>

theorem merge_after_launch_loses_server_lines:
  "isSending launched
   \<and> logs launched =
       [initial_entry contacts_xlsx, \<lparr>type = Info, message = js ''Bulk sending started''\<rparr>]
   \<and> logs (pollAll launched [(one_line_response, summary)]) =
       [initial_entry contacts_xlsx, \<lparr>type = Info, message = js ''Bulk sending started''\<rparr>]
   \<and> logs (pollAll launched [(first_response, summary), (second_response, summary)]) =
       [initial_entry contacts_xlsx, \<lparr>type = Info, message = js ''Bulk sending started''\<rparr>,
        \<lparr>type = Info, message = js ''c''\<rparr>,
        \<lparr>type = Success, message = js ''d '' @ check_mark\<rparr>,
        \<lparr>type = Error, message = js ''error: e''\<rparr>]"
  by code_simp

subsection \<open>C2: the same response twice\<close>

text \<open>
  C2. Processing the same poll response twice in a row leaves the log history after the
  second feed as it was after the first; the merge appends nothing when the server's
  count is at most the local count.

  Where each response is handled before the interval fires again this holds
  (\<open>pollCycle_twice_logs\<close>). The code departs from it when a response takes longer than
  the two seconds of the interval: both callbacks then hold the \<^verbatim>\<open>logs\<close> of the same
  render, the second still sees a local count of two after the first has appended, and
  the line \<open>c\<close> is appended a second time.
\<close>

theorem overlapping_polls_append_twice:
  "logs (pollRun launched [] [IntervalFires, ResponseArrives (first_response, summary)]) =
     [initial_entry contacts_xlsx, \<lparr>type = Info, message = js ''Bulk sending started''\<rparr>,
      \<lparr>type = Info, message = js ''c''\<rparr>]
   \<and> logs (pollRun launched []
        [IntervalFires, IntervalFires,
         ResponseArrives (first_response, summary),
         ResponseArrives (first_response, summary)]) =
     [initial_entry contacts_xlsx, \<lparr>type = Info, message = js ''Bulk sending started''\<rparr>,
      \<lparr>type = Info, message = js ''c''\<rparr>, \<lparr>type = Info, message = js ''c''\<rparr>]"
  by code_simp

subsection \<open>C3: when a response ends the run\<close>

text \<open>
  C3. A successful poll response processed while sending takes the session out of sending
  exactly when it reports the job inactive and a total above zero: inactive with total 0
  keeps the session sending, inactive with total 5 ends it.
\<close>

theorem leaves_sending_iff:
  "isSending s \<Longrightarrow> ok status \<Longrightarrow>
   (\<not> isSending (snd (pollCycle s (Responded status txt (Inr d), st))))
     = (\<not> data_is_active d \<and> data_total d > 0)"
  by (simp add: pollCycle_def pollCallback_isSending)

theorem leaves_sending_iff_witness:
  "isSending sending \<and> ok 200
   \<and> isSending (snd (pollCycle sending
        (Responded 200 (js ''OK'')
           (Inr \<lparr>data_current = 0, data_total = 0, data_logs = Some [], data_is_active = False\<rparr>),
         summary)))
   \<and> \<not> isSending (snd (pollCycle sending
        (Responded 200 (js ''OK'')
           (Inr \<lparr>data_current = 5, data_total = 5, data_logs = Some [], data_is_active = False\<rparr>),
         summary)))"
proof -
  have a: "isSending sending" by (simp add: sending_def)
  have b: "ok 200" by (simp add: ok_def)
  show ?thesis
    using a b
      leaves_sending_iff [OF a b, of "js ''OK''"
        "\<lparr>data_current = 0, data_total = 0, data_logs = Some [], data_is_active = False\<rparr>" summary]
      leaves_sending_iff [OF a b, of "js ''OK''"
        "\<lparr>data_current = 5, data_total = 5, data_logs = Some [], data_is_active = False\<rparr>" summary]
    by simp
qed

subsection \<open>C4: the classification of a log line\<close>

text \<open>
  C4. The classification is a function of the text alone, its three cases read in order:
  a text with a success marker (the check mark, or \<open>success\<close> in any letter case) is a
  success; otherwise a text with a failure marker (the ballot x, or \<open>error\<close> or \<open>failed\<close>
  in any letter case) is an error; every other text is info. The five lines of the
  scenario come out as info a, info b, info c, success \<open>d\<close> with the check mark, error
  \<open>error: e\<close>, which is also the history the two responses leave in a sending session
  that held no entry.
\<close>

theorem categorize_by_text:
  "(includes_js m check_mark \<or> includes_js (toLowerCase m) (js ''success'')
      \<longrightarrow> categorize m = \<lparr>type = Success, message = m\<rparr>)
   \<and> (\<not> (includes_js m check_mark \<or> includes_js (toLowerCase m) (js ''success''))
      \<and> (includes_js m ballot_x \<or> includes_js (toLowerCase m) (js ''error'')
           \<or> includes_js (toLowerCase m) (js ''failed''))
      \<longrightarrow> categorize m = \<lparr>type = Error, message = m\<rparr>)
   \<and> (\<not> (includes_js m check_mark \<or> includes_js (toLowerCase m) (js ''success''))
      \<and> \<not> (includes_js m ballot_x \<or> includes_js (toLowerCase m) (js ''error'')
           \<or> includes_js (toLowerCase m) (js ''failed''))
      \<longrightarrow> categorize m = \<lparr>type = Info, message = m\<rparr>)
   \<and> map categorize [js ''a'', js ''b'', js ''c'', js ''d '' @ check_mark, js ''error: e''] =
       [\<lparr>type = Info, message = js ''a''\<rparr>,
        \<lparr>type = Info, message = js ''b''\<rparr>,
        \<lparr>type = Info, message = js ''c''\<rparr>,
        \<lparr>type = Success, message = js ''d '' @ check_mark\<rparr>,
        \<lparr>type = Error, message = js ''error: e''\<rparr>]
   \<and> pollAll sending [(first_response, summary), (second_response, summary)] =
       sending\<lparr>isSending := False, progress := \<lparr>current = 10, total = 10\<rparr>,
         logs := [\<lparr>type = Info, message = js ''a''\<rparr>,
                  \<lparr>type = Info, message = js ''b''\<rparr>,
                  \<lparr>type = Info, message = js ''c''\<rparr>,
                  \<lparr>type = Success, message = js ''d '' @ check_mark\<rparr>,
                  \<lparr>type = Error, message = js ''error: e''\<rparr>],
         toast := \<lparr>toast_message = js ''Completed: 9 sent, 1 failed'',
                   toast_type = ToastSuccess\<rparr>\<rparr>"
proof -
  have lines: "map categorize [js ''a'', js ''b'', js ''c'', js ''d '' @ check_mark, js ''error: e''] =
       [\<lparr>type = Info, message = js ''a''\<rparr>,
        \<lparr>type = Info, message = js ''b''\<rparr>,
        \<lparr>type = Info, message = js ''c''\<rparr>,
        \<lparr>type = Success, message = js ''d '' @ check_mark\<rparr>,
        \<lparr>type = Error, message = js ''error: e''\<rparr>]"
    by code_simp
  have run: "pollAll sending [(first_response, summary), (second_response, summary)] =
       sending\<lparr>isSending := False, progress := \<lparr>current = 10, total = 10\<rparr>,
         logs := [\<lparr>type = Info, message = js ''a''\<rparr>,
                  \<lparr>type = Info, message = js ''b''\<rparr>,
                  \<lparr>type = Info, message = js ''c''\<rparr>,
                  \<lparr>type = Success, message = js ''d '' @ check_mark\<rparr>,
                  \<lparr>type = Error, message = js ''error: e''\<rparr>],
         toast := \<lparr>toast_message = js ''Completed: 9 sent, 1 failed'',
                   toast_type = ToastSuccess\<rparr>\<rparr>"
    by code_simp
  have success: "includes_js m check_mark \<or> includes_js (toLowerCase m) (js ''success'')
      \<longrightarrow> categorize m = \<lparr>type = Success, message = m\<rparr>"
    by (simp add: categorize_def)
  have failure: "\<not> (includes_js m check_mark \<or> includes_js (toLowerCase m) (js ''success''))
      \<and> (includes_js m ballot_x \<or> includes_js (toLowerCase m) (js ''error'')
           \<or> includes_js (toLowerCase m) (js ''failed''))
      \<longrightarrow> categorize m = \<lparr>type = Error, message = m\<rparr>"
    by (simp add: categorize_def)
  have neither: "\<not> (includes_js m check_mark \<or> includes_js (toLowerCase m) (js ''success''))
      \<and> \<not> (includes_js m ballot_x \<or> includes_js (toLowerCase m) (js ''error'')
           \<or> includes_js (toLowerCase m) (js ''failed''))
      \<longrightarrow> categorize m = \<lparr>type = Info, message = m\<rparr>"
    by (simp add: categorize_def)
  show ?thesis
    by (rule conjI [OF success conjI [OF failure conjI [OF neither conjI [OF lines run]]]])
qed

theorem categorize_by_text_witness:
  "categorize (js ''Sent to Ann: SUCCESS'') =
     \<lparr>type = Success, message = js ''Sent to Ann: SUCCESS''\<rparr>
   \<and> categorize (js ''Sending Failed'') = \<lparr>type = Error, message = js ''Sending Failed''\<rparr>
   \<and> categorize (js ''Opening chat'') = \<lparr>type = Info, message = js ''Opening chat''\<rparr>"
proof -
  have a: "includes_js (toLowerCase (js ''Sent to Ann: SUCCESS'')) (js ''success'')"
    by code_simp
  have b: "\<not> (includes_js (js ''Sending Failed'') check_mark
              \<or> includes_js (toLowerCase (js ''Sending Failed'')) (js ''success''))"
    by code_simp
  have c: "includes_js (toLowerCase (js ''Sending Failed'')) (js ''failed'')"
    by code_simp
  have d: "\<not> (includes_js (js ''Opening chat'') check_mark
              \<or> includes_js (toLowerCase (js ''Opening chat'')) (js ''success''))"
    by code_simp
  have e: "\<not> (includes_js (js ''Opening chat'') ballot_x
              \<or> includes_js (toLowerCase (js ''Opening chat'')) (js ''error'')
              \<or> includes_js (toLowerCase (js ''Opening chat'')) (js ''failed''))"
    by code_simp
  have s1: "categorize (js ''Sent to Ann: SUCCESS'') =
     \<lparr>type = Success, message = js ''Sent to Ann: SUCCESS''\<rparr>"
    by (rule mp [OF categorize_by_text [of "js ''Sent to Ann: SUCCESS''", THEN conjunct1]])
       (rule disjI2, rule a)
  have s2: "categorize (js ''Sending Failed'') = \<lparr>type = Error, message = js ''Sending Failed''\<rparr>"
    by (rule mp [OF categorize_by_text
          [of "js ''Sending Failed''", THEN conjunct2, THEN conjunct1]])
       (rule conjI, rule b, rule disjI2, rule disjI2, rule c)
  have s3: "categorize (js ''Opening chat'') = \<lparr>type = Info, message = js ''Opening chat''\<rparr>"
    by (rule mp [OF categorize_by_text
          [of "js ''Opening chat''", THEN conjunct2, THEN conjunct2, THEN conjunct1]])
       (rule conjI, rule d, rule e)
  show ?thesis
    by (rule conjI [OF s1 conjI [OF s2 s3]])
qed

subsection \<open>C5: launch without a recipients file\<close>

text \<open>
  C5. In every session with no recipients file selected, the launch issues no request and
  changes nothing of the run (sending flag, logs and progress stay as they are): all it
  does is raise the error notification.
\<close>

theorem launch_without_recipients:
  "recipientsFile s = None \<Longrightarrow>
   handleStartSending s response =
     ([], s\<lparr>toast := \<lparr>toast_message = js ''Please select a recipients Excel file'',
                        toast_type = ToastError\<rparr>\<rparr>)"
  by (simp add: handleStartSending_def showToast_def)

theorem launch_without_recipients_witness:
  "recipientsFile initial_app = None
   \<and> fst (handleStartSending initial_app accepted) = []
   \<and> isSending (snd (handleStartSending initial_app accepted)) = False
   \<and> logs (snd (handleStartSending initial_app accepted)) = []
   \<and> progress (snd (handleStartSending initial_app accepted)) = \<lparr>current = 0, total = 0\<rparr>
   \<and> toast_type (toast (snd (handleStartSending initial_app accepted))) = ToastError"
proof -
  have a: "recipientsFile initial_app = None" by (simp add: initial_app_def)
  show ?thesis
    using a launch_without_recipients [OF a, of accepted] by (simp add: initial_app_def)
qed

subsection \<open>C6: a rejected file leaves the selection alone\<close>

text \<open>
  C6. For every candidate file whose extension (the substring after the last dot, in
  lower case, with the dot in front) is not in the slot's accepted formats, neither the
  file input nor the drop calls \<^verbatim>\<open>onFileSelect\<close>, so the selected file, whatever it is,
  stays as it was. A name without a dot counts as its own extension
  (\<open>extension_after_last_dot\<close>).
\<close>

theorem rejected_file_keeps_selection:
  "dot # toLowerCase (after_last_dot (name file)) \<notin> set acceptedFormats \<Longrightarrow>
   \<not> list_ex selects (handleFileInput acceptedFormats (Some file))
   \<and> \<not> list_ex selects (handleDrop acceptedFormats disabled (file # others))
   \<and> slot_after currentFile (handleFileInput acceptedFormats (Some file)) = currentFile
   \<and> slot_after currentFile (handleDrop acceptedFormats disabled (file # others)) = currentFile"
  by (simp add: handleFileInput_def handleDrop_def validateFile_def extension_after_last_dot)

theorem rejected_file_keeps_selection_witness:
  "dot # toLowerCase (after_last_dot (name notes_csv)) = js ''.csv''
   \<and> js ''.csv'' \<notin> set excelFormats
   \<and> slot_after (Some contacts_xlsx) (handleFileInput excelFormats (Some notes_csv))
       = Some contacts_xlsx
   \<and> slot_after None (handleDrop excelFormats False [notes_csv]) = None
   \<and> \<not> list_ex selects (handleFileInput excelFormats (Some notes_csv))
   \<and> \<not> list_ex selects (handleDrop excelFormats False [notes_csv])"
proof -
  have a: "dot # toLowerCase (after_last_dot (name notes_csv)) = js ''.csv''" by code_simp
  have b: "js ''.csv'' \<notin> set excelFormats" by code_simp
  from a b have c: "dot # toLowerCase (after_last_dot (name notes_csv)) \<notin> set excelFormats"
    by simp
  show ?thesis
    using a b rejected_file_keeps_selection [OF c, of False "[]" "Some contacts_xlsx"]
      rejected_file_keeps_selection [OF c, of False "[]" None]
    by simp
qed

subsection \<open>C7: a failed poll\<close>

text \<open>
  C7. Poll cycles whose status request fails (the transport rejects, or the status is
  not a success) change nothing: after any number of them in a row the whole session
  (progress, logs, sending flag, toast) is as before, every cycle has issued its
  progress request again, and no summary is asked for.
\<close>

theorem failed_polls_change_nothing:
  "list_all (\<lambda>r. failed_poll (fst r)) rs \<Longrightarrow> isSending s \<Longrightarrow>
   pollAll s rs = s
   \<and> filter (\<lambda>e. e = Fetch GetProgress) (pollTrace s rs)
       = replicate (length rs) (Fetch GetProgress)
   \<and> Fetch GetStatus \<notin> set (pollTrace s rs)"
proof (induction rs)
  case Nil
  then show ?case by simp
next
  case (Cons r rs)
  then have f: "failed_poll (fst r)" and rest: "list_all (\<lambda>r. failed_poll (fst r)) rs"
    by simp_all
  note step = pollCycle_failed [OF f Cons.prems(2)]
  from Cons.IH [OF rest Cons.prems(2)] step show ?case
    by (auto split: fetched.splits)
qed

theorem failed_polls_change_nothing_witness:
  "list_all (\<lambda>r. failed_poll (fst r))
     [(gateway_down, summary), (offline, summary), (offline, summary)]
   \<and> isSending launched
   \<and> pollAll launched [(gateway_down, summary), (offline, summary), (offline, summary)]
       = launched
   \<and> pollTrace launched [(gateway_down, summary), (offline, summary), (offline, summary)] =
       [Fetch GetProgress, ConsoleWarn, Fetch GetProgress, ConsoleError,
        Fetch GetProgress, ConsoleError]"
proof -
  have a: "list_all (\<lambda>r. failed_poll (fst r))
             [(gateway_down, summary), (offline, summary), (offline, summary)]"
    by code_simp
  have b: "isSending launched" by code_simp
  have c: "pollTrace launched [(gateway_down, summary), (offline, summary), (offline, summary)] =
       [Fetch GetProgress, ConsoleWarn, Fetch GetProgress, ConsoleError,
        Fetch GetProgress, ConsoleError]" by code_simp
  show ?thesis
    using a b c failed_polls_change_nothing [OF a b] by simp
qed

subsection \<open>C8: when a toast clears itself\<close>




subsection \<open>C9: the entries the launch writes\<close>

text \<open>
  C9. Once a launch is requested with a recipients file selected, the log history is not
  empty before any poll: the launch writes the info entry
  \<open>Initializing bulk send process with <name>...\<close> and, when the launch is accepted, a
  second info entry with the acceptance message. The merge then compares the server's
  count with a local count of two, so a response with at most two lines adds nothing
  although no server line has been recorded.
\<close>

theorem launch_leaves_local_entries:
  "recipientsFile s = Some rf \<Longrightarrow>
   hd (fst (handleStartSending s response)) = Fetch (PostSend (formData rf (attachmentFile s)))
   \<and> hd (logs (snd (handleStartSending s response))) = initial_entry rf
   \<and> initial_entry rf =
       \<lparr>type = Info,
        message = js ''Initializing bulk send process with '' @ name rf @ js ''...''\<rparr>
   \<and> (ok status \<longrightarrow>
        logs (snd (handleStartSending s (Responded status statusText (Inr result)))) =
          [initial_entry rf,
           \<lparr>type = Info,
            message = or_else (data_message result)
                        (js ''Bulk sending process started successfully'')\<rparr>]
        \<and> isSending (snd (handleStartSending s (Responded status statusText (Inr result))))
        \<and> (length lines \<le> 2 \<longrightarrow>
             logs (snd (pollCycle
                (snd (handleStartSending s (Responded status statusText (Inr result))))
                (success_of
                   \<lparr>data_current = c, data_total = t, data_logs = Some lines,
                    data_is_active = active\<rparr>, st))) =
             logs (snd (handleStartSending s (Responded status statusText (Inr result))))))"
  by (auto simp add: handleStartSending_def Let_def sendFailed_def showToast_def initial_entry_def
      pollCycle_def pollCallback_logs mergeLogs_def ok_def success_of_def
      split: fetched.splits sum.splits)

theorem launch_leaves_local_entries_witness:
  "recipientsFile ready = Some contacts_xlsx \<and> ok 200 \<and> length [js ''a''] \<le> 2
   \<and> logs launched =
       [initial_entry contacts_xlsx, \<lparr>type = Info, message = js ''Bulk sending started''\<rparr>]
   \<and> isSending launched
   \<and> length (logs launched) > length [js ''a'']
   \<and> logs (snd (pollCycle launched (one_line_response, summary))) = logs launched"
proof -
  have a: "recipientsFile ready = Some contacts_xlsx" by (simp add: ready_def)
  have b: "ok 200" by (simp add: ok_def)
  have c: "length [js ''a''] \<le> 2" by simp
  have d: "or_else (Some (js ''Bulk sending started''))
             (js ''Bulk sending process started successfully'') = js ''Bulk sending started''"
    by code_simp
  show ?thesis
    unfolding launched_def accepted_def one_line_response_def
    using a b c d
      launch_leaves_local_entries [OF a, of accepted 200 "js ''OK''"
        "\<lparr>data_message = Some (js ''Bulk sending started''), data_error = None\<rparr>"
        "[js ''a'']" 0 10 True summary]
    by (simp add: success_of_def)
qed

subsection \<open>C10: success markers come first\<close>

text \<open>
  C10. A text with a success marker (the check mark, or \<open>success\<close> in any letter case) is
  classified success even when it also holds the ballot x, \<open>error\<close> or \<open>failed\<close>; a text
  classified error holds no success marker.
\<close>

theorem success_marker_wins:
  "(includes_js m check_mark \<or> includes_js (toLowerCase m) (js ''success'')
      \<longrightarrow> type (categorize m) = Success)
   \<and> (type (categorize m) = Error
      \<longrightarrow> \<not> includes_js m check_mark \<and> \<not> includes_js (toLowerCase m) (js ''success''))"
  by (simp add: categorize_def)

theorem success_marker_wins_witness:
  "includes_js (check_mark @ js '' error: failed '' @ ballot_x) check_mark
   \<and> includes_js (check_mark @ js '' error: failed '' @ ballot_x) ballot_x
   \<and> includes_js (toLowerCase (check_mark @ js '' error: failed '' @ ballot_x)) (js ''error'')
   \<and> includes_js (toLowerCase (check_mark @ js '' error: failed '' @ ballot_x)) (js ''failed'')
   \<and> type (categorize (check_mark @ js '' error: failed '' @ ballot_x)) = Success"
proof -
  have a: "includes_js (check_mark @ js '' error: failed '' @ ballot_x) check_mark"
    by code_simp
  have b: "includes_js (check_mark @ js '' error: failed '' @ ballot_x) ballot_x"
    by code_simp
  have c: "includes_js (toLowerCase (check_mark @ js '' error: failed '' @ ballot_x))
             (js ''error'')"
    by code_simp
  have d: "includes_js (toLowerCase (check_mark @ js '' error: failed '' @ ballot_x))
             (js ''failed'')"
    by code_simp
  show ?thesis
    using a b c d success_marker_wins [of "check_mark @ js '' error: failed '' @ ballot_x"]
    by blast
qed

end
